theory Spec2Isabelle
  imports Main "HOL-Library.Multiset"
begin

section \<open>MemoryPool (include/hft_core/MemoryPool.hpp)\<close>

text \<open>
  Pointers are addresses, \<open>nullptr\<close> is address 0. The template parameters
  \<open>BlockSize\<close> and \<open>sizeof(T)\<close> are passed to every operation. An operation that may
  call \<open>std::aligned_alloc\<close> takes the address that call would return (\<open>nullptr\<close> when
  the allocation fails).
\<close>

definition nullptr :: nat where
  "nullptr = 0"

datatype pool_error = bad_alloc | undefined_behaviour

record MemoryPool =
  blocks :: "nat list"
  free_list :: "nat list"

definition objects_per_block :: "nat \<Rightarrow> nat \<Rightarrow> nat" where
  "objects_per_block BlockSize sizeof_T = BlockSize div sizeof_T"

text \<open>
  The loop \<open>for (i = 0; i < objects_per_block_; ++i) free_list_.push_back(typed_block + i)\<close>;
  the fourth argument counts the iterations that remain.
\<close>

fun push_slots :: "nat \<Rightarrow> nat \<Rightarrow> nat \<Rightarrow> nat \<Rightarrow> nat list \<Rightarrow> nat list" where
  "push_slots typed_block sizeof_T i 0 fl = fl"
| "push_slots typed_block sizeof_T i (Suc k) fl =
     push_slots typed_block sizeof_T (Suc i) k (fl @ [typed_block + i * sizeof_T])"

definition allocate_block :: "nat \<Rightarrow> nat \<Rightarrow> nat \<Rightarrow> MemoryPool \<Rightarrow> pool_error + MemoryPool" where
  "allocate_block BlockSize sizeof_T block p =
     (if block = nullptr then Inl bad_alloc
      else Inr (p\<lparr>blocks := blocks p @ [block],
                  free_list := push_slots block sizeof_T 0
                     (objects_per_block BlockSize sizeof_T) (free_list p)\<rparr>))"

text \<open>The constructor: \<open>initial_blocks\<close> is a parameter that the body never reads.\<close>

definition MemoryPool_ctor :: "nat \<Rightarrow> nat \<Rightarrow> nat \<Rightarrow> nat \<Rightarrow> pool_error + MemoryPool" where
  "MemoryPool_ctor BlockSize sizeof_T block initial_blocks =
     allocate_block BlockSize sizeof_T block \<lparr>blocks = [], free_list = []\<rparr>"

text \<open>
  \<open>allocate\<close>: \<open>free_list_.back()\<close> on a vector that is still empty after the growth
  (a block that holds no object) is undefined behaviour in C++.
\<close>

definition allocate :: "nat \<Rightarrow> nat \<Rightarrow> nat \<Rightarrow> MemoryPool \<Rightarrow> pool_error + (nat \<times> MemoryPool)" where
  "allocate BlockSize sizeof_T block p =
     (case (if free_list p = [] then allocate_block BlockSize sizeof_T block p else Inr p) of
        Inl e \<Rightarrow> Inl e
      | Inr p' \<Rightarrow>
          (if free_list p' = [] then Inl undefined_behaviour
           else Inr (last (free_list p'), p'\<lparr>free_list := butlast (free_list p')\<rparr>)))"

definition deallocate :: "nat \<Rightarrow> MemoryPool \<Rightarrow> MemoryPool" where
  "deallocate ptr p =
     (if ptr \<noteq> nullptr then p\<lparr>free_list := free_list p @ [ptr]\<rparr> else p)"

text \<open>
  \<open>construct\<close>: \<open>T_ctor args ptr\<close> is the placement construction of a \<open>T\<close> at \<open>ptr\<close>;
  it is \<open>Some e\<close> when the constructor throws \<open>e\<close>. The pool after the call is returned
  on both paths, since the exception leaves the pool object alive.
\<close>

datatype 'e construct_failure = pool_failure pool_error | ctor_failure 'e

definition construct ::
  "nat \<Rightarrow> nat \<Rightarrow> nat \<Rightarrow> ('a \<Rightarrow> nat \<Rightarrow> 'e option) \<Rightarrow> 'a \<Rightarrow> MemoryPool
     \<Rightarrow> ('e construct_failure + nat) \<times> MemoryPool" where
  "construct BlockSize sizeof_T block T_ctor args p =
     (case allocate BlockSize sizeof_T block p of
        Inl e \<Rightarrow> (Inl (pool_failure e), p)
      | Inr (ptr, p') \<Rightarrow>
          (case T_ctor args ptr of
             None \<Rightarrow> (Inr ptr, p')
           | Some e \<Rightarrow> (Inl (ctor_failure e), deallocate ptr p')))"

text \<open>
  \<open>destroy\<close>: the second component of the state lists the addresses whose destructor
  \<open>ptr->~T()\<close> has run, in order.
\<close>

definition destroy :: "nat \<Rightarrow> MemoryPool \<times> nat list \<Rightarrow> MemoryPool \<times> nat list" where
  "destroy ptr st =
     (if ptr \<noteq> nullptr then (deallocate ptr (fst st), snd st @ [ptr]) else st)"

definition capacity :: "nat \<Rightarrow> nat \<Rightarrow> MemoryPool \<Rightarrow> nat" where
  "capacity BlockSize sizeof_T p = length (blocks p) * objects_per_block BlockSize sizeof_T"

definition available :: "MemoryPool \<Rightarrow> nat" where
  "available p = length (free_list p)"

text \<open>
  A sequence of pool operations. \<open>Allocate b\<close> is a call of \<open>allocate()\<close> during which
  \<open>std::aligned_alloc\<close>, if called, returns \<open>b\<close>; \<open>Deallocate ptr\<close> is
  \<open>deallocate(ptr)\<close>. Beside the pool, \<open>run\<close> keeps the multiset of the slots handed
  out and not yet given back; it stops (\<open>None\<close>) when an allocation fails or when a
  slot is given back that is not outstanding.
\<close>

datatype pool_op = Allocate nat | Deallocate nat

fun run :: "nat \<Rightarrow> nat \<Rightarrow> pool_op list \<Rightarrow> MemoryPool \<times> nat multiset
    \<Rightarrow> (MemoryPool \<times> nat multiset) option" where
  "run BlockSize sizeof_T [] st = Some st"
| "run BlockSize sizeof_T (Allocate b # ops) st =
     (case allocate BlockSize sizeof_T b (fst st) of
        Inl e \<Rightarrow> None
      | Inr (ptr, p') \<Rightarrow> run BlockSize sizeof_T ops (p', add_mset ptr (snd st)))"
| "run BlockSize sizeof_T (Deallocate ptr # ops) st =
     (if ptr \<in># snd st
      then run BlockSize sizeof_T ops (deallocate ptr (fst st), snd st - {#ptr#})
      else None)"

text \<open>
  The invariant of a pool and its outstanding slots: the free slots and the outstanding
  ones add up to the capacity, and no null pointer is on the freelist or outstanding.
\<close>

definition pool_inv :: "nat \<Rightarrow> nat \<Rightarrow> MemoryPool \<times> nat multiset \<Rightarrow> bool" where
  "pool_inv B sz st \<longleftrightarrow>
     available (fst st) + size (snd st) = capacity B sz (fst st)
     \<and> 0 \<notin> set (free_list (fst st)) \<and> 0 \<notin># snd st"

section \<open>ThreadPool (unnamed/part_002, ThreadPool.hpp)\<close>

text \<open>
  A \<open>std::packaged_task\<close> lives on the heap at the address \<open>std::make_shared\<close>
  returned; it holds the bound callable and the shared state that the future reads
  (\<open>None\<close> until the task has run, then the value returned or the exception thrown).
  The queue \<open>tasks_\<close> holds the wrappers \<open>[task]() { (*task)(); }\<close>, that is the
  addresses, the front of the queue first.
\<close>

datatype exn = runtime_error string

definition SchedulerClosed :: exn where
  "SchedulerClosed = runtime_error ''enqueue on stopped ThreadPool''"

record ('e, 'r) packaged_task =
  callable :: "unit \<Rightarrow> 'e + 'r"
  shared_state :: "('e + 'r) option"

record ('e, 'r) ThreadPool =
  tasks :: "nat list"
  stop :: bool
  heap :: "nat \<rightharpoonup> ('e, 'r) packaged_task"

datatype future = Future nat

text \<open>
  \<open>enqueue\<close>: \<open>task\<close> is the address of the new packaged task, \<open>f\<close> the callable bound
  to its arguments. When the pool is stopped the exception destroys the packaged task
  and its future, and the pool is as before.
\<close>

definition enqueue ::
  "nat \<Rightarrow> (unit \<Rightarrow> 'e + 'r) \<Rightarrow> ('e, 'r) ThreadPool \<Rightarrow> (exn + future) \<times> ('e, 'r) ThreadPool" where
  "enqueue task f tp =
     (let res = Future task
      in if stop tp then (Inl (runtime_error ''enqueue on stopped ThreadPool''), tp)
         else (Inr res,
               tp\<lparr>tasks := tasks tp @ [task],
                  heap := (heap tp)(task \<mapsto> \<lparr>callable = f, shared_state = None\<rparr>)\<rparr>))"

text \<open>
  One turn of a worker's loop on a queue that is not empty: it takes the front task,
  pops it and runs it, which stores the outcome in the shared state. On an empty queue
  the worker waits or, when the pool is stopped, returns: \<open>None\<close>.
\<close>

definition run_task :: "nat \<Rightarrow> (nat \<rightharpoonup> ('e, 'r) packaged_task) \<Rightarrow> (nat \<rightharpoonup> ('e, 'r) packaged_task)" where
  "run_task task h =
     (case h task of
        None \<Rightarrow> h
      | Some pt \<Rightarrow> h(task \<mapsto> pt\<lparr>shared_state := Some (callable pt ())\<rparr>))"

definition worker_turn :: "('e, 'r) ThreadPool \<Rightarrow> ('e, 'r) ThreadPool option" where
  "worker_turn tp =
     (case tasks tp of
        [] \<Rightarrow> None
      | task # rest \<Rightarrow> Some (tp\<lparr>tasks := rest, heap := run_task task (heap tp)\<rparr>))"

fun worker_turns :: "nat \<Rightarrow> ('e, 'r) ThreadPool \<Rightarrow> ('e, 'r) ThreadPool option" where
  "worker_turns 0 tp = Some tp"
| "worker_turns (Suc n) tp =
     (case worker_turn tp of None \<Rightarrow> None | Some tp' \<Rightarrow> worker_turns n tp')"

definition future_get :: "future \<Rightarrow> ('e, 'r) ThreadPool \<Rightarrow> ('e + 'r) option" where
  "future_get fut tp =
     (case fut of Future task \<Rightarrow>
        (case heap tp task of None \<Rightarrow> None | Some pt \<Rightarrow> shared_state pt))"

section \<open>EventBus (unnamed/part_003, EventBus.hpp)\<close>

text \<open>
  What a handler throws: an object of a class derived from \<open>std::exception\<close>, or an
  object of any other type (\<open>throw 42;\<close>). The handler loop's
  \<open>catch (const std::exception& e)\<close> matches the first kind only.
\<close>

datatype thrown = std_exception string | other_exception string

text \<open>
  An event carries the \<open>type_id\<close> its \<open>TypedEvent\<close> base stored. A handler is run on an
  event in a state \<open>'w\<close> of the program outside the bus; it returns the state it leaves
  and what it threw, if anything.
\<close>

record ('t, 'p) Event =
  timestamp :: nat
  type_id :: 't
  payload :: 'p

type_synonym ('t, 'p, 'w) handler = "('t, 'p) Event \<Rightarrow> 'w \<Rightarrow> 'w \<times> thrown option"

record ('t, 'p, 'w) EventBus =
  handlers :: "'t \<rightharpoonup> ('t, 'p, 'w) handler list"
  event_queue :: "('t, 'p) Event list"
  async_mode :: bool
  shutdown_requested :: bool

definition subscribe ::
  "'t \<Rightarrow> ('t, 'p, 'w) handler \<Rightarrow> ('t, 'p, 'w) EventBus \<Rightarrow> ('t, 'p, 'w) EventBus" where
  "subscribe T h bus =
     bus\<lparr>handlers := (handlers bus)
        (T \<mapsto> (case handlers bus T of None \<Rightarrow> [] | Some hs \<Rightarrow> hs) @ [h])\<rparr>"

definition unsubscribe :: "'t \<Rightarrow> ('t, 'p, 'w) EventBus \<Rightarrow> ('t, 'p, 'w) EventBus" where
  "unsubscribe T bus = bus\<lparr>handlers := (handlers bus)(T := None)\<rparr>"

text \<open>
  The handler loop. Beside the program state it extends the record of the calls made:
  which thread called which handler, in order. A \<open>std::exception\<close> is caught and the loop
  goes on; anything else leaves the loop and the function.
\<close>

fun invoke_handlers ::
  "nat \<Rightarrow> ('t, 'p, 'w) handler list \<Rightarrow> ('t, 'p) Event
     \<Rightarrow> 'w \<times> (nat \<times> ('t, 'p, 'w) handler) list
     \<Rightarrow> ('w \<times> (nat \<times> ('t, 'p, 'w) handler) list) \<times> thrown option" where
  "invoke_handlers tid [] ev st = (st, None)"
| "invoke_handlers tid (h # hs) ev st =
     (case h ev (fst st) of
        (w', None) \<Rightarrow> invoke_handlers tid hs ev (w', snd st @ [(tid, h)])
      | (w', Some (std_exception e)) \<Rightarrow> invoke_handlers tid hs ev (w', snd st @ [(tid, h)])
      | (w', Some (other_exception x)) \<Rightarrow> ((w', snd st @ [(tid, h)]), Some (other_exception x)))"

definition dispatch_event ::
  "nat \<Rightarrow> 't \<Rightarrow> ('t, 'p) Event \<Rightarrow> ('t, 'p, 'w) EventBus
     \<Rightarrow> 'w \<times> (nat \<times> ('t, 'p, 'w) handler) list
     \<Rightarrow> ('w \<times> (nat \<times> ('t, 'p, 'w) handler) list) \<times> thrown option" where
  "dispatch_event tid T ev bus st =
     (case handlers bus T of
        None \<Rightarrow> (st, None)
      | Some hs \<Rightarrow> invoke_handlers tid hs ev st)"

text \<open>
  \<open>publish<EventType>(event)\<close> called on thread \<open>tid\<close>; \<open>T\<close> is \<open>typeid(EventType)\<close>.
\<close>

definition publish ::
  "nat \<Rightarrow> 't \<Rightarrow> ('t, 'p) Event \<Rightarrow> ('t, 'p, 'w) EventBus
     \<Rightarrow> 'w \<times> (nat \<times> ('t, 'p, 'w) handler) list
     \<Rightarrow> ('t, 'p, 'w) EventBus \<times> ('w \<times> (nat \<times> ('t, 'p, 'w) handler) list) \<times> thrown option" where
  "publish tid T ev bus st =
     (if async_mode bus then (bus\<lparr>event_queue := event_queue bus @ [ev]\<rparr>, st, None)
      else (bus, dispatch_event tid T ev bus st))"

text \<open>The handlers subscribed for a type, in subscription order.\<close>

definition subscribed :: "('t, 'p, 'w) EventBus \<Rightarrow> 't \<Rightarrow> ('t, 'p, 'w) handler list" where
  "subscribed bus T = (case handlers bus T of None \<Rightarrow> [] | Some hs \<Rightarrow> hs)"

text \<open>
  \<open>throws_other h ev w\<close>: run on \<open>ev\<close> in the state \<open>w\<close>, the handler throws an object
  that is not a \<open>std::exception\<close>.
\<close>

definition throws_other :: "('t, 'p, 'w) handler \<Rightarrow> ('t, 'p) Event \<Rightarrow> 'w \<Rightarrow> bool" where
  "throws_other h ev w = (case snd (h ev w) of Some (other_exception x) \<Rightarrow> True | _ \<Rightarrow> False)"

definition dispatch_polymorphic_event ::
  "nat \<Rightarrow> ('t, 'p) Event \<Rightarrow> ('t, 'p, 'w) EventBus
     \<Rightarrow> 'w \<times> (nat \<times> ('t, 'p, 'w) handler) list
     \<Rightarrow> ('w \<times> (nat \<times> ('t, 'p, 'w) handler) list) \<times> thrown option" where
  "dispatch_polymorphic_event tid ev bus st =
     (case handlers bus (type_id ev) of
        None \<Rightarrow> (st, None)
      | Some hs \<Rightarrow> invoke_handlers tid hs ev st)"

section \<open>EventBus: the asynchronous mode as interleaved steps\<close>

text \<open>
  One client thread calls the bus; the dispatcher thread runs \<open>worker_loop\<close>. Each thread
  advances by atomic steps between the points where it takes or releases
  \<open>queue_mutex_\<close>; a schedule says which thread moves next. A thread that needs the
  mutex while another holds it cannot move. A thread blocked in \<open>queue_cv_.wait\<close> may
  wake at any time (the standard allows spurious wake-ups), so \<open>notify_one\<close> adds no
  behaviour and is a step without effect.
\<close>

datatype thread = Client | Dispatcher

definition client_tid :: nat where "client_tid = 1"
definition dispatcher_tid :: nat where "dispatcher_tid = 2"

datatype ('t, 'p) client_op =
    SetAsyncMode bool
  | Publish 't "('t, 'p) Event"
  | Flush

text \<open>Where the client is inside a call.\<close>

datatype ('t, 'p) client_pc =
    C_idle
  | P_lock "('t, 'p) Event"
  | P_push "('t, 'p) Event"
  | P_notify
  | F_lock
  | F_wait
  | F_blocked

text \<open>Where the dispatcher is in \<open>worker_loop\<close>.\<close>

datatype ('t, 'p) worker_pc =
    W_lock
  | W_wait
  | W_blocked
  | W_check
  | W_inner
  | W_dispatch "('t, 'p) Event"
  | W_relock
  | W_exit

record ('t, 'p, 'w) system =
  event_bus :: "('t, 'p, 'w) EventBus"
  queue_mutex :: "thread option"
  worker_thread :: "('t, 'p) worker_pc option"
  client :: "('t, 'p) client_pc"
  todo :: "('t, 'p) client_op list"
  world :: "'w \<times> (nat \<times> ('t, 'p, 'w) handler) list"
  uncaught :: "thrown option"

definition client_step :: "('t, 'p, 'w) system \<Rightarrow> ('t, 'p, 'w) system option" where
  "client_step s =
     (case client s of
        C_idle \<Rightarrow>
          (case todo s of
             [] \<Rightarrow> None
           | SetAsyncMode a # rest \<Rightarrow>
               Some (s\<lparr>event_bus := (event_bus s)\<lparr>async_mode := a\<rparr>,
                       worker_thread :=
                         (if a \<and> worker_thread s = None then Some W_lock else worker_thread s),
                       todo := rest\<rparr>)
           | Publish T ev # rest \<Rightarrow>
               (if async_mode (event_bus s) then Some (s\<lparr>client := P_lock ev, todo := rest\<rparr>)
                else (case dispatch_event client_tid T ev (event_bus s) (world s) of
                        (st, thr) \<Rightarrow> Some (s\<lparr>world := st, uncaught := thr, todo := rest\<rparr>)))
           | Flush # rest \<Rightarrow>
               (if \<not> async_mode (event_bus s) then Some (s\<lparr>todo := rest\<rparr>)
                else Some (s\<lparr>client := F_lock, todo := rest\<rparr>)))
      | P_lock ev \<Rightarrow>
          (if queue_mutex s = None
           then Some (s\<lparr>queue_mutex := Some Client, client := P_push ev\<rparr>) else None)
      | P_push ev \<Rightarrow>
          Some (s\<lparr>event_bus := (event_bus s)\<lparr>event_queue := event_queue (event_bus s) @ [ev]\<rparr>,
                  queue_mutex := None, client := P_notify\<rparr>)
      | P_notify \<Rightarrow> Some (s\<lparr>client := C_idle\<rparr>)
      | F_lock \<Rightarrow>
          (if queue_mutex s = None
           then Some (s\<lparr>queue_mutex := Some Client, client := F_wait\<rparr>) else None)
      | F_wait \<Rightarrow>
          (if event_queue (event_bus s) = [] then Some (s\<lparr>queue_mutex := None, client := C_idle\<rparr>)
           else Some (s\<lparr>queue_mutex := None, client := F_blocked\<rparr>))
      | F_blocked \<Rightarrow>
          (if queue_mutex s = None
           then Some (s\<lparr>queue_mutex := Some Client, client := F_wait\<rparr>) else None))"

definition worker_step :: "('t, 'p, 'w) system \<Rightarrow> ('t, 'p, 'w) system option" where
  "worker_step s =
     (case worker_thread s of
        None \<Rightarrow> None
      | Some W_lock \<Rightarrow>
          (if queue_mutex s = None
           then Some (s\<lparr>queue_mutex := Some Dispatcher, worker_thread := Some W_wait\<rparr>)
           else None)
      | Some W_wait \<Rightarrow>
          (if event_queue (event_bus s) \<noteq> [] \<or> shutdown_requested (event_bus s)
           then Some (s\<lparr>worker_thread := Some W_check\<rparr>)
           else Some (s\<lparr>queue_mutex := None, worker_thread := Some W_blocked\<rparr>))
      | Some W_blocked \<Rightarrow>
          (if queue_mutex s = None
           then Some (s\<lparr>queue_mutex := Some Dispatcher, worker_thread := Some W_wait\<rparr>)
           else None)
      | Some W_check \<Rightarrow>
          (if shutdown_requested (event_bus s) \<and> event_queue (event_bus s) = []
           then Some (s\<lparr>queue_mutex := None, worker_thread := Some W_exit\<rparr>)
           else Some (s\<lparr>worker_thread := Some W_inner\<rparr>))
      | Some W_inner \<Rightarrow>
          (case event_queue (event_bus s) of
             [] \<Rightarrow> Some (s\<lparr>queue_mutex := None, worker_thread := Some W_lock\<rparr>)
           | ev # rest \<Rightarrow>
               Some (s\<lparr>event_bus := (event_bus s)\<lparr>event_queue := rest\<rparr>,
                       queue_mutex := None, worker_thread := Some (W_dispatch ev)\<rparr>))
      | Some (W_dispatch ev) \<Rightarrow>
          (case dispatch_polymorphic_event dispatcher_tid ev (event_bus s) (world s) of
             (st, None) \<Rightarrow> Some (s\<lparr>world := st, worker_thread := Some W_relock\<rparr>)
           | (st, Some x) \<Rightarrow>
               Some (s\<lparr>world := st, uncaught := Some x, worker_thread := Some W_exit\<rparr>))
      | Some W_relock \<Rightarrow>
          (if queue_mutex s = None
           then Some (s\<lparr>queue_mutex := Some Dispatcher, worker_thread := Some W_inner\<rparr>)
           else None)
      | Some W_exit \<Rightarrow> None)"

fun bus_step :: "thread \<Rightarrow> ('t, 'p, 'w) system \<Rightarrow> ('t, 'p, 'w) system option" where
  "bus_step Client s = client_step s"
| "bus_step Dispatcher s = worker_step s"

fun bus_exec :: "thread list \<Rightarrow> ('t, 'p, 'w) system \<Rightarrow> ('t, 'p, 'w) system option" where
  "bus_exec [] s = Some s"
| "bus_exec (t # ts) s = (case bus_step t s of None \<Rightarrow> None | Some s' \<Rightarrow> bus_exec ts s')"

text \<open>
  A bus with one handler, which appends the payload of the event it is given to the
  program state, and a client that turns the asynchronous mode on, publishes three events
  and calls \<open>flush\<close>. In the schedule \<open>early_flush\<close> the client makes its 13 steps up
  to the end of the third \<open>publish\<close>, the dispatcher makes 10 steps, which take it to the
  point where it has popped the third event, and the client makes the 3 steps of
  \<open>flush\<close>.
\<close>

definition recorder :: "(nat, nat, nat list) handler" where
  "recorder ev w = (w @ [payload ev], None)"

definition test_event :: "nat \<Rightarrow> (nat, nat) Event" where
  "test_event n = \<lparr>timestamp = 0, type_id = 1, payload = n\<rparr>"

definition flush_start :: "(nat, nat, nat list) system" where
  "flush_start =
     \<lparr>event_bus = \<lparr>handlers = [1 \<mapsto> [recorder]], event_queue = [],
              async_mode = False, shutdown_requested = False\<rparr>,
      queue_mutex = None, worker_thread = None, client = C_idle,
      todo = [SetAsyncMode True, Publish 1 (test_event 1), Publish 1 (test_event 2),
              Publish 1 (test_event 3), Flush],
      world = ([], []), uncaught = None\<rparr>"

definition early_flush :: "thread list" where
  "early_flush =
     replicate 13 Client @ replicate 10 Dispatcher @ replicate 3 Client"

section \<open>LockFreeMemoryPool (include/hft_core/MemoryPool.hpp)\<close>

text \<open>
  Nodes are addresses, \<open>nullptr\<close> is 0. \<open>node_next\<close> gives the \<open>next\<close> field of every
  node and \<open>created\<close> counts the nodes made by \<open>new Node\<close>. Two parameters stand for the
  platform: \<open>new_node k\<close> is the address that the \<open>k\<close>-th \<open>new Node\<close> returns and
  \<open>data_offset\<close> is \<open>offsetof(Node, data)\<close>.
\<close>

record LockFreeMemoryPool =
  head :: nat
  node_next :: "nat \<Rightarrow> nat"
  created :: nat

text \<open>
  The constructor pushes \<open>initial_size\<close> new nodes; no other thread sees the pool yet, so
  each \<open>compare_exchange_weak\<close> finds the head it expects (a spurious failure repeats the
  same store and exchange). The second argument counts the iterations that remain.
\<close>

fun ctor_loop :: "(nat \<Rightarrow> nat) \<Rightarrow> nat \<Rightarrow> LockFreeMemoryPool \<Rightarrow> LockFreeMemoryPool" where
  "ctor_loop new_node 0 p = p"
| "ctor_loop new_node (Suc k) p =
     ctor_loop new_node k
       (p\<lparr>head := new_node (created p),
          node_next := (node_next p)(new_node (created p) := head p),
          created := Suc (created p)\<rparr>)"

definition LockFreeMemoryPool_ctor :: "(nat \<Rightarrow> nat) \<Rightarrow> nat \<Rightarrow> LockFreeMemoryPool" where
  "LockFreeMemoryPool_ctor new_node initial_size =
     ctor_loop new_node initial_size \<lparr>head = 0, node_next = (\<lambda>n. 0), created = 0\<rparr>"

text \<open>
  Where a thread is inside \<open>allocate\<close> or \<open>deallocate\<close>, between two accesses to the
  atomics:
  \<^item> \<open>A_loaded old_head\<close>: \<open>head_\<close> has been loaded into \<open>old_head\<close>;
  \<^item> \<open>A_cas old_head nxt\<close>: \<open>old_head->next.load()\<close> has been evaluated to \<open>nxt\<close>, the
    exchange is next;
  \<^item> \<open>D_loaded node old_head\<close>: \<open>head_\<close> has been loaded, the store to \<open>node->next\<close> is
    next;
  \<^item> \<open>D_cas node old_head\<close>: \<open>node->next\<close> has been stored, the exchange is next.
\<close>

datatype lf_pc =
    Idle
  | A_loaded nat
  | A_cas nat nat
  | D_loaded nat nat
  | D_cas nat nat

datatype pool_event = Allocated nat nat | Deallocated nat nat

datatype lf_action = Call_allocate nat | Call_deallocate nat nat | Step nat

record lf_system =
  pool :: LockFreeMemoryPool
  pcs :: "nat \<Rightarrow> lf_pc"
  history :: "pool_event list"

text \<open>
  One atomic step. \<open>Call_allocate t\<close> and \<open>Call_deallocate t ptr\<close> enter the function on
  thread \<open>t\<close> up to its first load of \<open>head_\<close>; \<open>Step t\<close> takes thread \<open>t\<close> to its next
  access. The history records every pointer returned by \<open>allocate\<close> and every pointer
  passed to \<open>deallocate\<close>.
\<close>

definition lf_step ::
  "(nat \<Rightarrow> nat) \<Rightarrow> nat \<Rightarrow> lf_action \<Rightarrow> lf_system \<Rightarrow> lf_system option" where
  "lf_step new_node data_offset a s =
     (case a of
        Call_allocate t \<Rightarrow>
          (if pcs s t = Idle then Some (s\<lparr>pcs := (pcs s)(t := A_loaded (head (pool s)))\<rparr>)
           else None)
      | Call_deallocate t ptr \<Rightarrow>
          (if pcs s t \<noteq> Idle then None
           else if ptr = 0 then Some s
           else Some (s\<lparr>pcs := (pcs s)(t := D_loaded (ptr - data_offset) (head (pool s))),
                        history := history s @ [Deallocated t ptr]\<rparr>))
      | Step t \<Rightarrow>
          (case pcs s t of
             Idle \<Rightarrow> None
           | A_loaded old_head \<Rightarrow>
               (if old_head = 0
                then Some (s\<lparr>pool := (pool s)
                                \<lparr>node_next := (node_next (pool s))(new_node (created (pool s)) := 0),
                                 created := Suc (created (pool s))\<rparr>,
                             pcs := (pcs s)(t := Idle),
                             history := history s
                                @ [Allocated t (new_node (created (pool s)) + data_offset)]\<rparr>)
                else Some (s\<lparr>pcs := (pcs s)(t := A_cas old_head (node_next (pool s) old_head))\<rparr>))
           | A_cas old_head nxt \<Rightarrow>
               (if head (pool s) = old_head
                then Some (s\<lparr>pool := (pool s)\<lparr>head := nxt\<rparr>,
                             pcs := (pcs s)(t := Idle),
                             history := history s @ [Allocated t (old_head + data_offset)]\<rparr>)
                else Some (s\<lparr>pcs := (pcs s)(t := A_loaded (head (pool s)))\<rparr>))
           | D_loaded node old_head \<Rightarrow>
               Some (s\<lparr>pool := (pool s)\<lparr>node_next := (node_next (pool s))(node := old_head)\<rparr>,
                       pcs := (pcs s)(t := D_cas node old_head)\<rparr>)
           | D_cas node old_head \<Rightarrow>
               (if head (pool s) = old_head
                then Some (s\<lparr>pool := (pool s)\<lparr>head := node\<rparr>, pcs := (pcs s)(t := Idle)\<rparr>)
                else Some (s\<lparr>pcs := (pcs s)(t := D_loaded node (head (pool s)))\<rparr>))))"

fun lf_exec ::
  "(nat \<Rightarrow> nat) \<Rightarrow> nat \<Rightarrow> lf_action list \<Rightarrow> lf_system \<Rightarrow> lf_system option" where
  "lf_exec new_node data_offset [] s = Some s"
| "lf_exec new_node data_offset (a # as) s =
     (case lf_step new_node data_offset a s of
        None \<Rightarrow> None
      | Some s' \<Rightarrow> lf_exec new_node data_offset as s')"

text \<open>The allocations that are live_allocations after a history, with their multiplicity.\<close>

fun live_allocations :: "pool_event list \<Rightarrow> nat multiset \<Rightarrow> nat multiset" where
  "live_allocations [] m = m"
| "live_allocations (Allocated t ptr # es) m = live_allocations es (add_mset ptr m)"
| "live_allocations (Deallocated t ptr # es) m = live_allocations es (m - {#ptr#})"

definition aba_schedule :: "lf_action list" where
  "aba_schedule =
     [Call_allocate 1, Step 1,
      Call_allocate 2, Step 2, Step 2,
      Call_allocate 2, Step 2, Step 2,
      Call_deallocate 2 200, Step 2, Step 2,
      Step 1,
      Call_allocate 1, Step 1, Step 1]"

definition lf_start :: "(nat \<Rightarrow> nat) \<Rightarrow> nat \<Rightarrow> lf_system" where
  "lf_start new_node initial_size =
     \<lparr>pool = LockFreeMemoryPool_ctor new_node initial_size, pcs = (\<lambda>t. Idle), history = []\<rparr>"

text \<open>
  For the runs below: the \<open>k\<close>-th node lies at \<open>64 * (k + 1)\<close> (a \<open>Node\<close> is
  \<open>alignas(64)\<close>), and \<open>data\<close> lies 8 bytes into the node.
\<close>

definition node_at :: "nat \<Rightarrow> nat" where
  "node_at k = 64 * (k + 1)"

section \<open>Config (include/hft_core/Config.hpp)\<close>

text \<open>
  \<open>ConfigValue\<close> is \<open>std::variant<std::string, int, double, bool>\<close>. The type \<open>'d\<close>
  stands for \<open>double\<close>; the two library functions on it that the code calls are
  parameters: \<open>stod s\<close> is \<open>std::stod(s, &pos)\<close>, the value and \<open>pos\<close> or \<open>None\<close> when it
  throws, and \<open>put_double d\<close> is the text that \<open>file << d\<close> writes. \<open>config_map_\<close>, a
  \<open>std::unordered_map\<close>, is a map from keys to values; the order in which the container
  iterates its keys is not fixed by the code and is a parameter of \<open>save_to_file\<close>.
\<close>

datatype 'd ConfigValue = VString string | VInt int | VDouble 'd | VBool bool

type_synonym 'd config_map = "string \<rightharpoonup> 'd ConfigValue"

definition newline :: char where
  "newline = CHR 0x0A"

definition is_blank :: "char \<Rightarrow> bool" where
  "is_blank c \<longleftrightarrow> c = CHR '' '' \<or> c = CHR 0x09 \<or> c = CHR 0x0D \<or> c = CHR 0x0A"

definition isspace :: "char \<Rightarrow> bool" where
  "isspace c \<longleftrightarrow> c = CHR '' '' \<or> (9 :: nat) \<le> of_char c \<and> (of_char c :: nat) \<le> 13"

definition isdigit :: "char \<Rightarrow> bool" where
  "isdigit c \<longleftrightarrow> (48 :: nat) \<le> of_char c \<and> (of_char c :: nat) \<le> 57"

text \<open>
  \<open>trim\<close>: \<open>start\<close> is \<open>find_first_not_of(" \t\r\n")\<close> and \<open>last_pos\<close> is
  \<open>find_last_not_of(" \t\r\n")\<close>.
\<close>

definition trim :: "string \<Rightarrow> string" where
  "trim str =
     (let start = length (takeWhile is_blank str)
      in if start = length str then []
         else let last_pos = length str - 1 - length (takeWhile is_blank (rev str))
              in take (last_pos - start + 1) (drop start str))"

text \<open>
  \<open>std::stoi(value, &pos)\<close>: white space, an optional sign and decimal digits; it throws
  (\<open>None\<close>) when there is no digit or the number is not an \<open>int\<close>.
\<close>

definition digits_value :: "string \<Rightarrow> nat" where
  "digits_value ds = foldl (\<lambda>a c. 10 * a + (of_char c - 48)) 0 ds"

definition stoi :: "string \<Rightarrow> (int \<times> nat) option" where
  "stoi s =
     (let s1 = dropWhile isspace s;
          negative = (s1 \<noteq> [] \<and> hd s1 = CHR ''-'');
          s2 = (if s1 \<noteq> [] \<and> (hd s1 = CHR ''-'' \<or> hd s1 = CHR ''+'') then tl s1 else s1);
          ds = takeWhile isdigit s2;
          v = (if negative then - int (digits_value ds) else int (digits_value ds))
      in if ds = [] then None
         else if v < - 2147483648 \<or> 2147483647 < v then None
         else Some (v, length s - length s2 + length ds))"

definition parse_value :: "(string \<Rightarrow> ('d \<times> nat) option) \<Rightarrow> string \<Rightarrow> 'd ConfigValue" where
  "parse_value stod v =
     (if v = ''true'' \<or> v = ''TRUE'' then VBool True
      else if v = ''false'' \<or> v = ''FALSE'' then VBool False
      else case (case stoi v of
                   Some (int_val, pos) \<Rightarrow> if pos = length v then Some (VInt int_val) else None
                 | None \<Rightarrow> None) of
             Some r \<Rightarrow> r
           | None \<Rightarrow>
               (case (case stod v of
                        Some (double_val, pos) \<Rightarrow>
                          if pos = length v then Some (VDouble double_val) else None
                      | None \<Rightarrow> None) of
                  Some r \<Rightarrow> r
                | None \<Rightarrow> VString v))"

text \<open>The lines that successive \<open>std::getline\<close> calls return.\<close>

fun getlines :: "string \<Rightarrow> string list" where
  "getlines [] = []"
| "getlines (c # cs) =
     (if c = newline then [] # getlines cs
      else (case getlines cs of
              [] \<Rightarrow> [[c]]
            | l # ls \<Rightarrow> (c # l) # ls))"

definition load_line ::
  "(string \<Rightarrow> ('d \<times> nat) option) \<Rightarrow> 'd config_map \<Rightarrow> string \<Rightarrow> 'd config_map" where
  "load_line stod m line =
     (if line = [] \<or> hd line = CHR ''#'' then m
      else if CHR ''='' \<notin> set line then m
      else let pos = length (takeWhile (\<lambda>c. c \<noteq> CHR ''='') line);
               key = trim (take pos line);
               v = trim (drop (pos + 1) line);
               v' = (if length v \<ge> 2 \<and> hd v = CHR ''\"'' \<and> last v = CHR ''\"''
                     then take (length v - 2) (drop 1 v) else v)
           in m(key \<mapsto> parse_value stod v'))"

definition load_from_file ::
  "(string \<Rightarrow> ('d \<times> nat) option) \<Rightarrow> string \<Rightarrow> 'd config_map \<Rightarrow> 'd config_map" where
  "load_from_file stod file m = foldl (load_line stod) m (getlines file)"

text \<open>The decimal digits that \<open>file << v\<close> writes for an \<open>int\<close>.\<close>

fun put_nat :: "nat \<Rightarrow> string" where
  "put_nat n =
     (if n < 10 then [''0123456789'' ! n]
      else put_nat (n div 10) @ [''0123456789'' ! (n mod 10)])"

declare put_nat.simps [simp del]

definition put_int :: "int \<Rightarrow> string" where
  "put_int i = (if i < 0 then CHR ''-'' # put_nat (nat (- i)) else put_nat (nat i))"

text \<open>
  \<open>save_to_file\<close>: a string between double quotes, every other alternative as
  \<open>file << v\<close> writes it; the stream has no \<open>std::boolalpha\<close>, so a \<open>bool\<close> is written as
  \<open>1\<close> or \<open>0\<close>. \<open>order\<close> lists the keys of the map in the order in which the loop
  \<open>for (const auto& [key, value] : config_map_)\<close> meets them.
\<close>

definition put_value :: "('d \<Rightarrow> string) \<Rightarrow> 'd ConfigValue \<Rightarrow> string" where
  "put_value put_double v =
     (case v of
        VString s \<Rightarrow> ''\"'' @ s @ ''\"''
      | VInt i \<Rightarrow> put_int i
      | VDouble d \<Rightarrow> put_double d
      | VBool b \<Rightarrow> (if b then ''1'' else ''0''))"

definition save_to_file :: "('d \<Rightarrow> string) \<Rightarrow> string list \<Rightarrow> 'd config_map \<Rightarrow> string" where
  "save_to_file put_double order m =
     concat (map (\<lambda>key. case m key of
                          None \<Rightarrow> []
                        | Some v \<Rightarrow> key @ ''='' @ put_value put_double v @ [newline]) order)"

text \<open>\<open>get<T>(key, default_value)\<close>, for \<open>T = bool\<close> and \<open>T = std::string\<close>.\<close>

definition get_bool :: "string \<Rightarrow> bool \<Rightarrow> 'd config_map \<Rightarrow> bool" where
  "get_bool key default_value m =
     (case m key of Some (VBool b) \<Rightarrow> b | _ \<Rightarrow> default_value)"

definition get_string :: "string \<Rightarrow> string \<Rightarrow> 'd config_map \<Rightarrow> string" where
  "get_string key default_value m =
     (case m key of Some (VString s) \<Rightarrow> s | _ \<Rightarrow> default_value)"

section \<open>MemoryPool: the freelist and its counters\<close>

lemma length_push_slots:
  "length (push_slots tb sz i k fl) = length fl + k"
  by (induction k arbitrary: i fl) simp_all

lemma push_slots_append:
  "push_slots tb sz i k fl = fl @ map (\<lambda>j. tb + j * sz) [i..<i + k]"
proof (induction k arbitrary: i fl)
  case 0
  then show ?case by simp
next
  case (Suc k)
  have "[i..<i + Suc k] = i # [Suc i..<Suc i + k]"
    by (simp add: upt_conv_Cons)
  with Suc show ?case by simp
qed

lemma nonnull_push_slots:
  "tb \<noteq> 0 \<Longrightarrow> 0 \<notin> set fl \<Longrightarrow> 0 \<notin> set (push_slots tb sz i k fl)"
  by (auto simp: push_slots_append)

text \<open>
  C9. The constructor ignores \<open>initial_blocks\<close>: whatever the argument, a construction
  that succeeds has allocated exactly one block, \<open>capacity()\<close> is
  \<open>BlockSize / sizeof(T)\<close> and \<open>available()\<close> equals \<open>capacity()\<close>; the result is the
  same for every two argument values.
\<close>

theorem MemoryPool_ctor_ignores_initial_blocks:
  "MemoryPool_ctor BlockSize sizeof_T block k = MemoryPool_ctor BlockSize sizeof_T block k'
   \<and> (block \<noteq> nullptr \<longrightarrow>
        (\<exists>p. MemoryPool_ctor BlockSize sizeof_T block k = Inr p
           \<and> length (blocks p) = 1
           \<and> capacity BlockSize sizeof_T p = BlockSize div sizeof_T
           \<and> available p = capacity BlockSize sizeof_T p))"
  by (simp add: MemoryPool_ctor_def allocate_block_def capacity_def available_def
      objects_per_block_def length_push_slots)

theorem MemoryPool_ctor_ignores_initial_blocks_witness:
  "(4096::nat) \<noteq> nullptr
   \<and> MemoryPool_ctor 64 16 4096 1 = MemoryPool_ctor 64 16 4096 7
   \<and> (\<exists>p. MemoryPool_ctor 64 16 4096 7 = Inr p
         \<and> length (blocks p) = 1
         \<and> capacity 64 16 p = 64 div 16
         \<and> available p = capacity 64 16 p)"
  using MemoryPool_ctor_ignores_initial_blocks [of 64 16 4096 1 7]
    MemoryPool_ctor_ignores_initial_blocks [of 64 16 4096 7 7]
  by (simp add: nullptr_def)

text \<open>
  C10. \<open>deallocate(nullptr)\<close> and \<open>destroy(nullptr)\<close> are no-ops on every pool state:
  the freelist, \<open>available()\<close> and \<open>capacity()\<close> are unchanged and no destructor runs.
\<close>

theorem MemoryPool_nullptr_noop:
  "deallocate nullptr p = p
   \<and> destroy nullptr (p, destroyed) = (p, destroyed)
   \<and> free_list (fst (destroy nullptr (p, destroyed))) = free_list p
   \<and> available (deallocate nullptr p) = available p
   \<and> capacity BlockSize sizeof_T (deallocate nullptr p) = capacity BlockSize sizeof_T p
   \<and> snd (destroy nullptr (p, destroyed)) = destroyed"
  by (simp add: deallocate_def destroy_def)

lemma allocate_block_counts:
  "allocate_block B sz b p = Inr p' \<Longrightarrow>
     b \<noteq> 0 \<and> blocks p' = blocks p @ [b]
     \<and> available p' = available p + B div sz
     \<and> capacity B sz p' = capacity B sz p + B div sz"
  by (auto simp: allocate_block_def available_def capacity_def objects_per_block_def
      length_push_slots nullptr_def split: if_splits)

lemma allocate_block_nonnull:
  "allocate_block B sz b p = Inr p' \<Longrightarrow> 0 \<notin> set (free_list p) \<Longrightarrow> 0 \<notin> set (free_list p')"
  by (auto simp: allocate_block_def nullptr_def nonnull_push_slots split: if_splits)

lemma allocate_nonempty:
  "free_list p \<noteq> [] \<Longrightarrow>
     allocate B sz b p = Inr (last (free_list p), p\<lparr>free_list := butlast (free_list p)\<rparr>)"
  by (simp add: allocate_def)

lemma allocate_nonempty_counts:
  "allocate B sz b p = Inr (ptr, p') \<Longrightarrow> 0 < available p \<Longrightarrow>
     available p' + 1 = available p \<and> capacity B sz p' = capacity B sz p
     \<and> ptr = last (free_list p) \<and> blocks p' = blocks p"
  by (auto simp: allocate_def available_def capacity_def)

lemma allocate_empty_counts:
  "allocate B sz b p = Inr (ptr, p') \<Longrightarrow> available p = 0 \<Longrightarrow>
     available p' + 1 = B div sz \<and> capacity B sz p' = capacity B sz p + B div sz
     \<and> blocks p' = blocks p @ [b]"
proof -
  assume a: "allocate B sz b p = Inr (ptr, p')" and e: "available p = 0"
  from e have fl: "free_list p = []" by (simp add: available_def)
  from a fl obtain q where q: "allocate_block B sz b p = Inr q"
    and ne: "free_list q \<noteq> []" and p': "p' = q\<lparr>free_list := butlast (free_list q)\<rparr>"
    by (auto simp: allocate_def split: sum.splits if_splits)
  from ne have "0 < available q" by (simp add: available_def)
  with allocate_block_counts[OF q] e p' show ?thesis
    by (simp add: available_def capacity_def objects_per_block_def)
qed

lemma allocate_live:
  "allocate B sz b p = Inr (ptr, p') \<Longrightarrow>
     available p' + 1 + n = capacity B sz p' \<longleftrightarrow> available p + n = capacity B sz p"
  using allocate_nonempty_counts[of B sz b p ptr p'] allocate_empty_counts[of B sz b p ptr p']
  by (cases "available p = 0") auto

lemma allocate_nonnull:
  assumes "allocate B sz b p = Inr (ptr, p')" "0 \<notin> set (free_list p)"
  shows "ptr \<noteq> 0 \<and> 0 \<notin> set (free_list p')"
proof -
  obtain q where q: "(if free_list p = [] then allocate_block B sz b p else Inr p) = Inr q"
    and ne: "free_list q \<noteq> []" and ptr: "ptr = last (free_list q)"
    and p': "p' = q\<lparr>free_list := butlast (free_list q)\<rparr>"
    using assms(1) by (auto simp: allocate_def split: sum.splits if_splits)
  have z: "0 \<notin> set (free_list q)"
    using q assms(2) allocate_block_nonnull[of B sz b p q] by (auto split: if_splits)
  have l: "last (free_list q) \<in> set (free_list q)" using ne by simp
  have "last (free_list q) \<noteq> 0"
  proof
    assume "last (free_list q) = 0"
    with l have "0 \<in> set (free_list q)" by simp
    with z show False by simp
  qed
  moreover have "0 \<notin> set (butlast (free_list q))"
    using z in_set_butlastD[of 0 "free_list q"] by blast
  ultimately show ?thesis unfolding ptr p' by simp
qed

lemma run_inv:
  "run B sz ops st = Some st' \<Longrightarrow> pool_inv B sz st \<Longrightarrow> pool_inv B sz st'"
proof (induction ops arbitrary: st)
  case Nil
  then show ?case by simp
next
  case (Cons x ops)
  show ?case
  proof (cases x)
    case (Allocate b)
    with Cons.prems obtain ptr p' where
      a: "allocate B sz b (fst st) = Inr (ptr, p')" and
      r: "run B sz ops (p', add_mset ptr (snd st)) = Some st'"
      by (auto split: sum.splits)
    have "pool_inv B sz (p', add_mset ptr (snd st))"
      using Cons.prems(2) allocate_live[OF a, of "size (snd st)"] allocate_nonnull[OF a]
      by (simp add: pool_inv_def)
    then show ?thesis using Cons.IH[OF r] by simp
  next
    case (Deallocate ptr)
    with Cons.prems have m: "ptr \<in># snd st" and
      r: "run B sz ops (deallocate ptr (fst st), snd st - {#ptr#}) = Some st'"
      by (auto split: if_splits)
    have nz: "ptr \<noteq> 0" using m Cons.prems(2) unfolding pool_inv_def by metis
    have "size (snd st) = Suc (size (snd st - {#ptr#}))"
      by (rule size_Suc_Diff1[OF m, symmetric])
    then have "pool_inv B sz (deallocate ptr (fst st), snd st - {#ptr#})"
      using Cons.prems(2) nz
      by (auto simp: pool_inv_def deallocate_def nullptr_def available_def capacity_def
          dest: in_diffD)
    then show ?thesis using Cons.IH[OF r] by simp
  qed
qed

lemma ctor_inv:
  "MemoryPool_ctor B sz b k = Inr p0 \<Longrightarrow> pool_inv B sz (p0, {#})"
  using allocate_block_counts[of B sz b "\<lparr>blocks = [], free_list = []\<rparr>" p0]
    allocate_block_nonnull[of B sz b "\<lparr>blocks = [], free_list = []\<rparr>" p0]
  by (simp add: MemoryPool_ctor_def pool_inv_def available_def capacity_def objects_per_block_def)

lemma push_slots_numeral:
  "push_slots tb sz i (numeral n) fl =
     push_slots tb sz (Suc i) (pred_numeral n) (fl @ [tb + i * sz])"
  by (simp add: numeral_eq_Suc)

lemmas pool_eval = MemoryPool_ctor_def allocate_block_def allocate_def deallocate_def
  objects_per_block_def nullptr_def available_def capacity_def push_slots_numeral

text \<open>
  C3 (amended). In every pool state reached from a fresh pool by allocations and by
  deallocations of outstanding slots: \<open>available()\<close> plus the number of outstanding
  slots is \<open>capacity()\<close>, so \<open>available()\<close> never exceeds \<open>capacity()\<close>; an
  \<open>allocate\<close> that finds a free slot lowers \<open>available()\<close> by exactly 1 and leaves
  \<open>capacity()\<close> alone; an \<open>allocate\<close> that finds \<open>available()\<close> zero raises
  \<open>capacity()\<close> by exactly \<open>BlockSize / sizeof(T)\<close> and leaves
  \<open>BlockSize / sizeof(T) - 1\<close> slots available; a \<open>deallocate\<close> of an outstanding slot
  raises \<open>available()\<close> by exactly 1 and leaves \<open>capacity()\<close> alone.
\<close>

theorem MemoryPool_accounting:
  assumes "MemoryPool_ctor BlockSize sizeof_T b0 k = Inr p0"
    and "run BlockSize sizeof_T ops (p0, {#}) = Some (p, live)"
  shows "available p + size live = capacity BlockSize sizeof_T p
    \<and> available p \<le> capacity BlockSize sizeof_T p
    \<and> (\<forall>b ptr p'. allocate BlockSize sizeof_T b p = Inr (ptr, p') \<longrightarrow>
          (0 < available p \<longrightarrow>
             available p' + 1 = available p
             \<and> capacity BlockSize sizeof_T p' = capacity BlockSize sizeof_T p)
        \<and> (available p = 0 \<longrightarrow>
             capacity BlockSize sizeof_T p' = capacity BlockSize sizeof_T p + BlockSize div sizeof_T
             \<and> available p' + 1 = BlockSize div sizeof_T)
        \<and> available p' \<le> capacity BlockSize sizeof_T p')
    \<and> (\<forall>ptr. ptr \<in># live \<longrightarrow>
          available (deallocate ptr p) = available p + 1
        \<and> capacity BlockSize sizeof_T (deallocate ptr p) = capacity BlockSize sizeof_T p
        \<and> available (deallocate ptr p) \<le> capacity BlockSize sizeof_T (deallocate ptr p))"
proof -
  have inv: "pool_inv BlockSize sizeof_T (p, live)"
    using run_inv[OF assms(2) ctor_inv[OF assms(1)]] .
  then have eq: "available p + size live = capacity BlockSize sizeof_T p"
    and nz: "0 \<notin># live"
    by (simp_all add: pool_inv_def)
  have alloc: "(0 < available p \<longrightarrow>
             available p' + 1 = available p
             \<and> capacity BlockSize sizeof_T p' = capacity BlockSize sizeof_T p)
        \<and> (available p = 0 \<longrightarrow>
             capacity BlockSize sizeof_T p' = capacity BlockSize sizeof_T p + BlockSize div sizeof_T
             \<and> available p' + 1 = BlockSize div sizeof_T)
        \<and> available p' \<le> capacity BlockSize sizeof_T p'"
    if a: "allocate BlockSize sizeof_T b p = Inr (ptr, p')" for b ptr p'
  proof -
    have "available p' + 1 + size live = capacity BlockSize sizeof_T p'"
      using allocate_live[OF a, of "size live"] eq by simp
    then have "available p' \<le> capacity BlockSize sizeof_T p'" by simp
    then show ?thesis
      using allocate_nonempty_counts[OF a] allocate_empty_counts[OF a] by simp
  qed
  have dealloc: "available (deallocate ptr p) = available p + 1
        \<and> capacity BlockSize sizeof_T (deallocate ptr p) = capacity BlockSize sizeof_T p
        \<and> available (deallocate ptr p) \<le> capacity BlockSize sizeof_T (deallocate ptr p)"
    if m: "ptr \<in># live" for ptr
  proof -
    have "ptr \<noteq> nullptr" unfolding nullptr_def using m nz by metis
    moreover have "0 < size live" by (metis m size_Suc_Diff1 zero_less_Suc)
    ultimately show ?thesis using eq
      by (simp add: deallocate_def available_def capacity_def)
  qed
  have "available p \<le> capacity BlockSize sizeof_T p" using eq by simp
  with eq alloc dealloc show ?thesis by blast
qed

theorem MemoryPool_accounting_witness:
  "MemoryPool_ctor 8 4 100 1 = Inr \<lparr>blocks = [100], free_list = [100, 104]\<rparr>
   \<and> run 8 4 [Allocate 0, Allocate 0, Allocate 200, Deallocate 104]
         (\<lparr>blocks = [100], free_list = [100, 104]\<rparr>, {#})
       = Some (\<lparr>blocks = [100, 200], free_list = [200, 104]\<rparr>, {#204, 100#})
   \<and> available \<lparr>blocks = [100, 200], free_list = [200, 104]\<rparr>
         \<le> capacity 8 4 \<lparr>blocks = [100, 200], free_list = [200, 104]\<rparr>
   \<and> 0 < available \<lparr>blocks = [100, 200], free_list = [200, 104]\<rparr>
   \<and> allocate 8 4 0 \<lparr>blocks = [100, 200], free_list = [200, 104]\<rparr>
       = Inr (104, \<lparr>blocks = [100, 200], free_list = [200]\<rparr>)
   \<and> available \<lparr>blocks = [100, 200], free_list = [200]\<rparr> + 1
       = available \<lparr>blocks = [100, 200], free_list = [200, 104]\<rparr>
   \<and> capacity 8 4 \<lparr>blocks = [100, 200], free_list = [200]\<rparr>
       = capacity 8 4 \<lparr>blocks = [100, 200], free_list = [200, 104]\<rparr>
   \<and> (204::nat) \<in># {#204, 100#}
   \<and> available (deallocate 204 \<lparr>blocks = [100, 200], free_list = [200, 104]\<rparr>)
       = available \<lparr>blocks = [100, 200], free_list = [200, 104]\<rparr> + 1
   \<and> run 8 4 [Allocate 0, Allocate 0] (\<lparr>blocks = [100], free_list = [100, 104]\<rparr>, {#})
       = Some (\<lparr>blocks = [100], free_list = []\<rparr>, {#100, 104#})
   \<and> available \<lparr>blocks = [100], free_list = []\<rparr> = 0
   \<and> allocate 8 4 200 \<lparr>blocks = [100], free_list = []\<rparr>
       = Inr (204, \<lparr>blocks = [100, 200], free_list = [200]\<rparr>)
   \<and> capacity 8 4 \<lparr>blocks = [100, 200], free_list = [200]\<rparr>
       = capacity 8 4 \<lparr>blocks = [100], free_list = []\<rparr> + 8 div 4
   \<and> available \<lparr>blocks = [100, 200], free_list = [200]\<rparr> + 1 = 8 div 4"
proof -
  let ?fresh = "\<lparr>blocks = [100], free_list = [100, 104]\<rparr>"
  let ?p = "\<lparr>blocks = [100, 200], free_list = [200, 104]\<rparr>"
  let ?q = "\<lparr>blocks = [100], free_list = []\<rparr>"
  have c: "MemoryPool_ctor 8 4 100 1 = Inr ?fresh"
    by (simp add: pool_eval)
  have r1: "run 8 4 [Allocate 0, Allocate 0, Allocate 200, Deallocate 104] (?fresh, {#})
      = Some (?p, {#204, 100#})"
    by (simp add: pool_eval)
  have r2: "run 8 4 [Allocate 0, Allocate 0] (?fresh, {#}) = Some (?q, {#100, 104#})"
    by (simp add: pool_eval)
  have a1: "allocate 8 4 0 ?p = Inr (104, \<lparr>blocks = [100, 200], free_list = [200]\<rparr>)"
    by (simp add: pool_eval)
  have a2: "allocate 8 4 200 ?q = Inr (204, \<lparr>blocks = [100, 200], free_list = [200]\<rparr>)"
    by (simp add: pool_eval)
  have m: "204 \<in># {#204, 100::nat#}" by simp
  have p1: "0 < available ?p" and p2: "available ?q = 0"
    by (simp_all add: available_def)
  note t1 = MemoryPool_accounting [OF c r1]
  note t2 = MemoryPool_accounting [OF c r2]
  note s0 = t1 [THEN conjunct2, THEN conjunct1]
  note s1 = t1 [THEN conjunct2, THEN conjunct2, THEN conjunct1, rule_format, OF a1,
      THEN conjunct1, rule_format, OF p1]
  note s2 = t1 [THEN conjunct2, THEN conjunct2, THEN conjunct2, rule_format, OF m,
      THEN conjunct1]
  note s3 = t2 [THEN conjunct2, THEN conjunct2, THEN conjunct1, rule_format, OF a2,
      THEN conjunct2, THEN conjunct1, rule_format, OF p2]
  from c r1 r2 a1 a2 m p1 p2 s0 s1 s2 s3 show ?thesis by blast
qed

text \<open>
  The claim as stated fails where the pool grows: with two slots per block, the third
  \<open>allocate\<close> of a fresh pool finds \<open>available()\<close> at 0 and leaves it at 1.
\<close>

theorem MemoryPool_available_counterexample:
  "MemoryPool_ctor 8 4 100 1 = Inr \<lparr>blocks = [100], free_list = [100, 104]\<rparr>
   \<and> run 8 4 [Allocate 0, Allocate 0] (\<lparr>blocks = [100], free_list = [100, 104]\<rparr>, {#})
       = Some (\<lparr>blocks = [100], free_list = []\<rparr>, {#100, 104#})
   \<and> allocate 8 4 200 \<lparr>blocks = [100], free_list = []\<rparr>
       = Inr (204, \<lparr>blocks = [100, 200], free_list = [200]\<rparr>)
   \<and> available \<lparr>blocks = [100], free_list = []\<rparr> = 0
   \<and> available \<lparr>blocks = [100, 200], free_list = [200]\<rparr> = 1
   \<and> available \<lparr>blocks = [100, 200], free_list = [200]\<rparr> + 1
       \<noteq> available \<lparr>blocks = [100], free_list = []\<rparr>"
  by (simp add: pool_eval)

text \<open>
  C5 (amended). When the element constructor throws, \<open>construct\<close> pushes the slot back on
  the freelist and the constructor's failure reaches the caller. If the freelist was not
  empty before the call the pool is exactly as before; if it was empty, the block added
  by the call stays, so \<open>capacity()\<close> is larger by \<open>BlockSize / sizeof(T)\<close> and
  \<open>available()\<close> is \<open>BlockSize / sizeof(T)\<close>. In both cases the number of slots in use,
  \<open>capacity() - available()\<close>, is as before.
\<close>

theorem construct_rollback:
  assumes "0 \<notin> set (free_list p)"
    and "allocate BlockSize sizeof_T b p = Inr (ptr, p')"
    and "T_ctor args ptr = Some e"
  shows "fst (construct BlockSize sizeof_T b T_ctor args p) = Inl (ctor_failure e)
    \<and> free_list (snd (construct BlockSize sizeof_T b T_ctor args p)) = free_list p' @ [ptr]
    \<and> (free_list p \<noteq> [] \<longrightarrow>
          snd (construct BlockSize sizeof_T b T_ctor args p) = p)
    \<and> (free_list p = [] \<longrightarrow>
          blocks (snd (construct BlockSize sizeof_T b T_ctor args p)) = blocks p @ [b]
        \<and> capacity BlockSize sizeof_T (snd (construct BlockSize sizeof_T b T_ctor args p))
            = capacity BlockSize sizeof_T p + BlockSize div sizeof_T
        \<and> available (snd (construct BlockSize sizeof_T b T_ctor args p))
            = BlockSize div sizeof_T)
    \<and> available (snd (construct BlockSize sizeof_T b T_ctor args p))
          + capacity BlockSize sizeof_T p
        = available p
          + capacity BlockSize sizeof_T (snd (construct BlockSize sizeof_T b T_ctor args p))"
proof -
  let ?q = "snd (construct BlockSize sizeof_T b T_ctor args p)"
  have nn: "ptr \<noteq> nullptr"
    using allocate_nonnull[OF assms(2) assms(1)] by (simp add: nullptr_def)
  have c: "construct BlockSize sizeof_T b T_ctor args p
      = (Inl (ctor_failure e), p'\<lparr>free_list := free_list p' @ [ptr]\<rparr>)"
    using assms(2,3) nn by (simp add: construct_def deallocate_def)
  have q: "?q = p'\<lparr>free_list := free_list p' @ [ptr]\<rparr>" by (simp add: c)
  have avq: "available ?q = available p' + 1" and capq: "capacity BlockSize sizeof_T ?q = capacity BlockSize sizeof_T p'"
    by (simp_all add: q available_def capacity_def)
  have ne: "?q = p" if "free_list p \<noteq> []"
    using assms(2) that by (auto simp: q allocate_nonempty)
  have em: "blocks ?q = blocks p @ [b]
        \<and> capacity BlockSize sizeof_T ?q = capacity BlockSize sizeof_T p + BlockSize div sizeof_T
        \<and> available ?q = BlockSize div sizeof_T" if "free_list p = []"
  proof -
    from that have "available p = 0" by (simp add: available_def)
    from allocate_empty_counts[OF assms(2) this] show ?thesis
      by (simp add: avq capq) (simp add: q)
  qed
  have bal: "available ?q + capacity BlockSize sizeof_T p
        = available p + capacity BlockSize sizeof_T ?q"
  proof (cases "free_list p = []")
    case True
    then have "available p = 0" by (simp add: available_def)
    with em[OF True] show ?thesis by simp
  next
    case False
    with ne show ?thesis by simp
  qed
  from c q ne em bal show ?thesis by simp
qed

theorem construct_rollback_witness:
  "0 \<notin> set (free_list \<lparr>blocks = [100], free_list = [100, 104]\<rparr>)
   \<and> allocate 8 4 0 \<lparr>blocks = [100], free_list = [100, 104]\<rparr>
       = Inr (104, \<lparr>blocks = [100], free_list = [100]\<rparr>)
   \<and> (\<lambda>args ptr. Some ''ctor failed'') () (104::nat) = Some ''ctor failed''
   \<and> free_list \<lparr>blocks = [100], free_list = [100, 104]\<rparr> \<noteq> []
   \<and> fst (construct 8 4 0 (\<lambda>args ptr. Some ''ctor failed'') ()
          \<lparr>blocks = [100], free_list = [100, 104]\<rparr>) = Inl (ctor_failure ''ctor failed'')
   \<and> snd (construct 8 4 0 (\<lambda>args ptr. Some ''ctor failed'') ()
          \<lparr>blocks = [100], free_list = [100, 104]\<rparr>)
       = \<lparr>blocks = [100], free_list = [100, 104]\<rparr>
   \<and> 0 \<notin> set (free_list \<lparr>blocks = [100], free_list = []\<rparr>)
   \<and> allocate 8 4 200 \<lparr>blocks = [100], free_list = []\<rparr>
       = Inr (204, \<lparr>blocks = [100, 200], free_list = [200]\<rparr>)
   \<and> free_list \<lparr>blocks = [100], free_list = []\<rparr> = []
   \<and> capacity 8 4 (snd (construct 8 4 200 (\<lambda>args ptr. Some ''ctor failed'') ()
          \<lparr>blocks = [100], free_list = []\<rparr>))
       = capacity 8 4 \<lparr>blocks = [100], free_list = []\<rparr> + 8 div 4
   \<and> available (snd (construct 8 4 200 (\<lambda>args ptr. Some ''ctor failed'') ()
          \<lparr>blocks = [100], free_list = []\<rparr>)) = 8 div 4"
proof -
  let ?full = "\<lparr>blocks = [100], free_list = [100, 104]\<rparr>"
  let ?empty = "\<lparr>blocks = [100], free_list = []\<rparr>"
  let ?ctor = "\<lambda>(args::unit) (ptr::nat). Some ''ctor failed''"
  have z1: "0 \<notin> set (free_list ?full)" and z2: "0 \<notin> set (free_list ?empty)"
    by simp_all
  have a1: "allocate 8 4 0 ?full = Inr (104, \<lparr>blocks = [100], free_list = [100]\<rparr>)"
    by (simp add: pool_eval)
  have a2: "allocate 8 4 200 ?empty = Inr (204, \<lparr>blocks = [100, 200], free_list = [200]\<rparr>)"
    by (simp add: pool_eval)
  have t1: "?ctor () 104 = Some ''ctor failed''" and t2: "?ctor () 204 = Some ''ctor failed''"
    by simp_all
  have n1: "free_list ?full \<noteq> []" and n2: "free_list ?empty = []"
    by simp_all
  note r1 = construct_rollback [where T_ctor = ?ctor and args = "()", OF z1 a1 t1]
  note r2 = construct_rollback [where T_ctor = ?ctor and args = "()", OF z2 a2 t2]
  note s1 = r1 [THEN conjunct1]
  note s2 = r1 [THEN conjunct2, THEN conjunct2, THEN conjunct1, rule_format, OF n1]
  note s3 = r2 [THEN conjunct2, THEN conjunct2, THEN conjunct2, THEN conjunct1, rule_format,
      OF n2, THEN conjunct2]
  from z1 z2 a1 a2 t1 n1 n2 s1 s2 s3 show ?thesis by blast
qed

text \<open>
  The claim as stated fails on a pool whose freelist is empty: the failed \<open>construct\<close>
  leaves \<open>available()\<close> at 2 instead of 0 and \<open>capacity()\<close> at 4 instead of 2.
\<close>

theorem construct_rollback_counterexample:
  "MemoryPool_ctor 8 4 100 1 = Inr \<lparr>blocks = [100], free_list = [100, 104]\<rparr>
   \<and> run 8 4 [Allocate 0, Allocate 0] (\<lparr>blocks = [100], free_list = [100, 104]\<rparr>, {#})
       = Some (\<lparr>blocks = [100], free_list = []\<rparr>, {#100, 104#})
   \<and> construct 8 4 200 (\<lambda>args ptr. Some ''ctor failed'') () \<lparr>blocks = [100], free_list = []\<rparr>
       = (Inl (ctor_failure ''ctor failed''), \<lparr>blocks = [100, 200], free_list = [200, 204]\<rparr>)
   \<and> available \<lparr>blocks = [100], free_list = []\<rparr> = 0
   \<and> available \<lparr>blocks = [100, 200], free_list = [200, 204]\<rparr> = 2
   \<and> capacity 8 4 \<lparr>blocks = [100], free_list = []\<rparr> = 2
   \<and> capacity 8 4 \<lparr>blocks = [100, 200], free_list = [200, 204]\<rparr> = 4"
  by (simp add: pool_eval construct_def)

section \<open>ThreadPool: submission\<close>

lemma worker_turns_tasks:
  "n \<le> length (tasks tp) \<Longrightarrow>
     \<exists>tp'. worker_turns n tp = Some tp' \<and> tasks tp' = drop n (tasks tp) \<and> stop tp' = stop tp"
proof (induction n arbitrary: tp)
  case 0
  then show ?case by simp
next
  case (Suc n)
  then obtain t rest where ts: "tasks tp = t # rest"
    by (cases "tasks tp") auto
  let ?tp1 = "tp\<lparr>tasks := rest, heap := run_task t (heap tp)\<rparr>"
  have "n \<le> length (tasks ?tp1)" using Suc.prems ts by simp
  from Suc.IH[OF this] show ?case by (simp add: worker_turn_def ts)
qed

lemma run_task_heap:
  "heap_before a = Some pt \<Longrightarrow>
     run_task t heap_before a
       = Some (if a = t then pt\<lparr>shared_state := Some (callable pt ())\<rparr> else pt)"
  by (cases "heap_before t") (auto simp: run_task_def)

lemma worker_turns_drain:
  "heap tp a = Some pt \<Longrightarrow>
     \<exists>tp'. worker_turns (length (tasks tp)) tp = Some tp' \<and> tasks tp' = []
       \<and> stop tp' = stop tp
       \<and> heap tp' a
         = Some (if a \<in> set (tasks tp) then pt\<lparr>shared_state := Some (callable pt ())\<rparr> else pt)"
proof (induction "tasks tp" arbitrary: tp pt)
  case Nil
  then show ?case by simp
next
  case (Cons t rest)
  let ?tp1 = "tp\<lparr>tasks := rest, heap := run_task t (heap tp)\<rparr>"
  let ?pt1 = "if a = t then pt\<lparr>shared_state := Some (callable pt ())\<rparr> else pt"
  have ts: "tasks tp = t # rest" using Cons.hyps(2) by simp
  have r: "rest = tasks ?tp1" by simp
  have h: "heap ?tp1 a = Some ?pt1"
    using run_task_heap[of "heap tp" a pt t] Cons.prems by simp
  from Cons.hyps(1)[OF r h] obtain tp' where
    w: "worker_turns (length rest) ?tp1 = Some tp'" and e: "tasks tp' = []"
    and s: "stop tp' = stop tp"
    and g: "heap tp' a
      = Some (if a \<in> set rest then ?pt1\<lparr>shared_state := Some (callable ?pt1 ())\<rparr> else ?pt1)"
    by auto
  have "worker_turns (length (tasks tp)) tp = Some tp'"
    using w by (simp add: ts worker_turn_def)
  moreover have "heap tp' a
      = Some (if a \<in> set (tasks tp) then pt\<lparr>shared_state := Some (callable pt ())\<rparr> else pt)"
    using g by (auto simp: ts)
  ultimately show ?case using e s by blast
qed

text \<open>
  C1. On a pool whose stop flag is set, \<open>enqueue\<close> fails with \<open>SchedulerClosed\<close> (the
  \<open>std::runtime_error\<close> "enqueue on stopped ThreadPool") and the pool, its queue included,
  is as before. On a pool whose stop flag is clear, \<open>enqueue\<close> does not fail: it returns
  the future of the new task, whose result is not yet there, and appends the task at the
  tail of the queue, so that the workers take it after every task that was queued before
  it; once it has run, the future holds the result of the callable.
\<close>

theorem enqueue_after_stop_fails:
  "(stop tp \<longrightarrow> enqueue task f tp = (Inl SchedulerClosed, tp))
   \<and> (\<not> stop tp \<longrightarrow>
        (\<exists>tp'. enqueue task f tp = (Inr (Future task), tp')
           \<and> tasks tp' = tasks tp @ [task]
           \<and> stop tp' = stop tp
           \<and> future_get (Future task) tp' = None
           \<and> (\<exists>tp''. worker_turns (length (tasks tp)) tp' = Some tp'' \<and> tasks tp'' = [task])
           \<and> (\<exists>tp''. worker_turns (length (tasks tp) + 1) tp' = Some tp'' \<and> tasks tp'' = []
                 \<and> future_get (Future task) tp'' = Some (f ()))))"
proof -
  let ?pt = "\<lparr>callable = f, shared_state = None\<rparr>"
  let ?tp' = "tp\<lparr>tasks := tasks tp @ [task], heap := (heap tp)(task \<mapsto> ?pt)\<rparr>"
  have a: "\<exists>tp''. worker_turns (length (tasks tp)) ?tp' = Some tp'' \<and> tasks tp'' = [task]"
    using worker_turns_tasks[of "length (tasks tp)" ?tp'] by auto
  have "heap ?tp' task = Some ?pt" by simp
  from worker_turns_drain[OF this]
  have b: "\<exists>tp''. worker_turns (length (tasks tp) + 1) ?tp' = Some tp'' \<and> tasks tp'' = []
      \<and> future_get (Future task) tp'' = Some (f ())"
    by (auto simp: future_get_def)
  have c: "future_get (Future task) ?tp' = None"
    by (simp add: future_get_def)
  show ?thesis
    using a b c by (simp add: enqueue_def SchedulerClosed_def)
qed

theorem enqueue_after_stop_fails_witness:
  "stop \<lparr>tasks = [1], stop = True, heap = Map.empty\<rparr>
   \<and> enqueue 2 (\<lambda>u. Inr (42::int)) \<lparr>tasks = [1], stop = True, heap = (Map.empty :: nat \<rightharpoonup> (string, int) packaged_task)\<rparr>
       = (Inl SchedulerClosed, \<lparr>tasks = [1], stop = True, heap = Map.empty\<rparr>)
   \<and> \<not> stop \<lparr>tasks = [1], stop = False, heap = Map.empty\<rparr>
   \<and> fst (enqueue 2 (\<lambda>u. Inr (42::int)) \<lparr>tasks = [1], stop = False, heap = (Map.empty :: nat \<rightharpoonup> (string, int) packaged_task)\<rparr>)
       = Inr (Future 2)
   \<and> tasks (snd (enqueue 2 (\<lambda>u. Inr (42::int)) \<lparr>tasks = [1], stop = False, heap = (Map.empty :: nat \<rightharpoonup> (string, int) packaged_task)\<rparr>))
       = [1, 2]"
  using enqueue_after_stop_fails [of "\<lparr>tasks = [1], stop = True, heap = (Map.empty :: nat \<rightharpoonup> (string, int) packaged_task)\<rparr>" 2 "\<lambda>u. Inr (42::int)"]
    enqueue_after_stop_fails [of "\<lparr>tasks = [1], stop = False, heap = (Map.empty :: nat \<rightharpoonup> (string, int) packaged_task)\<rparr>" 2 "\<lambda>u. Inr (42::int)"]
  by auto

section \<open>EventBus: synchronous dispatch and the registry\<close>

lemma subscribed_subscribe:
  "subscribed (subscribe T h bus) T = subscribed bus T @ [h]"
  by (simp add: subscribed_def subscribe_def)

lemma invoke_handlers_all:
  "(\<And>h w. h \<in> set hs \<Longrightarrow> \<not> throws_other h ev w) \<Longrightarrow>
     invoke_handlers tid hs ev (w, calls)
       = ((foldl (\<lambda>w h. fst (h ev w)) w hs, calls @ map (Pair tid) hs), None)"
proof (induction hs arbitrary: w calls)
  case Nil
  then show ?case by simp
next
  case (Cons h hs)
  have nt: "\<not> throws_other h ev w" using Cons.prems by simp
  have ih: "invoke_handlers tid hs ev (w', calls') =
      ((foldl (\<lambda>w h. fst (h ev w)) w' hs, calls' @ map (Pair tid) hs), None)" for w' calls'
    using Cons.IH[of w' calls'] Cons.prems by simp
  obtain w1 t where r: "h ev w = (w1, t)" by (cases "h ev w")
  show ?case
  proof (cases t)
    case None
    with r ih show ?thesis by simp
  next
    case (Some x)
    with nt r obtain e where "x = std_exception e"
      by (cases x) (auto simp: throws_other_def)
    with Some r ih show ?thesis by simp
  qed
qed

text \<open>
  What one turn of the handler loop does, whatever the later handlers do: a handler that
  returns or throws a \<open>std::exception\<close> is followed by the rest of the list; a handler
  that throws an object of another type ends the loop, and the object leaves the function.
\<close>

lemma invoke_handlers_return_continues:
  "h ev (fst st) = (w', None) \<Longrightarrow>
     invoke_handlers tid (h # hs) ev st = invoke_handlers tid hs ev (w', snd st @ [(tid, h)])"
  by simp

lemma invoke_handlers_std_exception_continues:
  "h ev (fst st) = (w', Some (std_exception e)) \<Longrightarrow>
     invoke_handlers tid (h # hs) ev st = invoke_handlers tid hs ev (w', snd st @ [(tid, h)])"
  by simp

lemma invoke_handlers_other_exception_escapes:
  "h ev (fst st) = (w', Some (other_exception x)) \<Longrightarrow>
     invoke_handlers tid (h # hs) ev st
       = ((w', snd st @ [(tid, h)]), Some (other_exception x))"
  by simp

text \<open>
  When no subscribed handler throws an object that is not a \<open>std::exception\<close>, a
  synchronous \<open>publish\<close> calls every handler subscribed for \<open>T\<close> once, in subscription
  order, on the caller's thread, and nothing reaches the publisher.
\<close>

lemma publish_sync_invokes_each_handler_once:
  assumes "\<not> async_mode bus"
    and "\<forall>h \<in> set (subscribed bus T). \<forall>w. \<not> throws_other h ev w"
  shows "publish tid T ev bus (w, calls)
      = (bus, (foldl (\<lambda>w h. fst (h ev w)) w (subscribed bus T),
               calls @ map (Pair tid) (subscribed bus T)), None)
    \<and> subscribed (subscribe T h bus) T = subscribed bus T @ [h]"
proof (cases "handlers bus T")
  case None
  then show ?thesis using assms(1)
    by (simp add: publish_def dispatch_event_def subscribed_def subscribe_def)
next
  case (Some hs)
  then have s: "subscribed bus T = hs" by (simp add: subscribed_def)
  have "invoke_handlers tid hs ev (w, calls)
       = ((foldl (\<lambda>w h. fst (h ev w)) w hs, calls @ map (Pair tid) hs), None)"
    using assms(2) s by (intro invoke_handlers_all) simp
  then show ?thesis using assms(1) Some s
    by (simp add: publish_def dispatch_event_def subscribed_subscribe)
qed

lemma publish_sync_std_exception_example:
  "\<not> async_mode \<lparr>handlers = [1 \<mapsto> [\<lambda>ev w. (w @ [payload ev], Some (std_exception ''first'')),
                                       \<lambda>ev w. (w @ [payload ev + 1], None)]],
                    event_queue = [], async_mode = False, shutdown_requested = False\<rparr>
   \<and> publish 7 (1::nat) \<lparr>timestamp = 0, type_id = 1, payload = (10::nat)\<rparr>
        \<lparr>handlers = [1 \<mapsto> [\<lambda>ev w. (w @ [payload ev], Some (std_exception ''first'')),
                            \<lambda>ev w. (w @ [payload ev + 1], None)]],
         event_queue = [], async_mode = False, shutdown_requested = False\<rparr>
        ([], [])
     = (\<lparr>handlers = [1 \<mapsto> [\<lambda>ev w. (w @ [payload ev], Some (std_exception ''first'')),
                            \<lambda>ev w. (w @ [payload ev + 1], None)]],
         event_queue = [], async_mode = False, shutdown_requested = False\<rparr>,
        ([10, 11],
         [(7, \<lambda>ev w. (w @ [payload ev], Some (std_exception ''first''))),
          (7, \<lambda>ev w. (w @ [payload ev + 1], None))]),
        None)"
proof -
  let ?h1 = "\<lambda>(ev :: (nat, nat) Event) (w :: nat list). (w @ [payload ev], Some (std_exception ''first''))"
  let ?h2 = "\<lambda>(ev :: (nat, nat) Event) (w :: nat list). (w @ [payload ev + 1], None :: thrown option)"
  let ?bus = "\<lparr>handlers = [(1::nat) \<mapsto> [?h1, ?h2]],
      event_queue = [], async_mode = False, shutdown_requested = False\<rparr>"
  let ?ev = "\<lparr>timestamp = 0, type_id = 1::nat, payload = 10::nat\<rparr>"
  have a: "\<not> async_mode ?bus" by simp
  have s: "subscribed ?bus 1 = [?h1, ?h2]" by (simp add: subscribed_def)
  have t: "\<forall>h \<in> set (subscribed ?bus 1). \<forall>w. \<not> throws_other h ?ev w"
    unfolding s by (simp add: throws_other_def)
  note r = publish_sync_invokes_each_handler_once [OF a t, of 7 "[]" "[]", THEN conjunct1]
  from a r show ?thesis unfolding s by simp
qed

text \<open>
  C2. The claim is that in synchronous mode every handler subscribed for \<open>T\<close> is called
  exactly once, any failure of a handler is caught and discarded, and no failure reaches
  the publisher. The code does not keep it, although the comment in its catch block says
  "Log error but continue processing other handlers": the block catches
  \<open>const std::exception&\<close> only. With two handlers subscribed, of which the first throws
  an object of another type, \<open>publish\<close> calls the first handler only, the second is
  never called and the object thrown reaches the publisher.
\<close>

theorem publish_sync_handler_failure_escapes:
  "publish 7 (1::nat) \<lparr>timestamp = 0, type_id = 1, payload = (10::nat)\<rparr>
        \<lparr>handlers = [1 \<mapsto> [\<lambda>ev w. (w @ [payload ev], Some (other_exception ''first'')),
                            \<lambda>ev w. (w @ [payload ev + 1], None)]],
         event_queue = [], async_mode = False, shutdown_requested = False\<rparr>
        ([], [])
     = (\<lparr>handlers = [1 \<mapsto> [\<lambda>ev w. (w @ [payload ev], Some (other_exception ''first'')),
                            \<lambda>ev w. (w @ [payload ev + 1], None)]],
         event_queue = [], async_mode = False, shutdown_requested = False\<rparr>,
        ([10], [(7, \<lambda>ev w. (w @ [payload ev], Some (other_exception ''first'')))]),
        Some (other_exception ''first''))"
  by (simp add: publish_def dispatch_event_def)

text \<open>
  C6. \<open>unsubscribe<T>()\<close> removes the whole handler list of \<open>T\<close>, so a later dispatch
  or synchronous publish of a \<open>T\<close> calls no handler and changes nothing; the handler
  lists of every other type, the event queue and the flags are unchanged.
\<close>

theorem unsubscribe_clears_only_that_type:
  "handlers (unsubscribe T bus) T = None
   \<and> subscribed (unsubscribe T bus) T = []
   \<and> (\<forall>U. U \<noteq> T \<longrightarrow> handlers (unsubscribe T bus) U = handlers bus U)
   \<and> event_queue (unsubscribe T bus) = event_queue bus
   \<and> async_mode (unsubscribe T bus) = async_mode bus
   \<and> shutdown_requested (unsubscribe T bus) = shutdown_requested bus
   \<and> dispatch_event tid T ev (unsubscribe T bus) st = (st, None)
   \<and> (type_id ev = T \<longrightarrow>
        dispatch_polymorphic_event tid ev (unsubscribe T bus) st = (st, None))
   \<and> (\<not> async_mode bus \<longrightarrow>
        publish tid T ev (unsubscribe T bus) st = (unsubscribe T bus, st, None))"
  by (simp add: unsubscribe_def subscribed_def dispatch_event_def
      dispatch_polymorphic_event_def publish_def)

theorem unsubscribe_clears_only_that_type_witness:
  "(2::nat) \<noteq> 1
   \<and> handlers (unsubscribe 1
        \<lparr>handlers = [1 \<mapsto> [\<lambda>ev w. (w @ [payload ev], None)],
                     2 \<mapsto> [\<lambda>ev w. (w @ [payload ev + 1], None)]],
         event_queue = [], async_mode = False, shutdown_requested = False\<rparr>) 2
     = Some [\<lambda>(ev :: (nat, nat) Event) (w :: nat list). (w @ [payload ev + 1], None)]
   \<and> type_id \<lparr>timestamp = 0, type_id = 1::nat, payload = 10::nat\<rparr> = 1
   \<and> dispatch_polymorphic_event 7 \<lparr>timestamp = 0, type_id = 1::nat, payload = 10::nat\<rparr>
        (unsubscribe 1
          \<lparr>handlers = [1 \<mapsto> [\<lambda>ev (w :: nat list). (w @ [payload ev], None)],
                       2 \<mapsto> [\<lambda>ev w. (w @ [payload ev + 1], None)]],
           event_queue = [], async_mode = False, shutdown_requested = False\<rparr>)
        ([], [])
     = (([], []), None)
   \<and> publish 7 (1::nat) \<lparr>timestamp = 0, type_id = 1, payload = 10::nat\<rparr>
        (unsubscribe 1
          \<lparr>handlers = [1 \<mapsto> [\<lambda>ev (w :: nat list). (w @ [payload ev], None)],
                       2 \<mapsto> [\<lambda>ev w. (w @ [payload ev + 1], None)]],
           event_queue = [], async_mode = False, shutdown_requested = False\<rparr>)
        ([], [])
     = (unsubscribe 1
          \<lparr>handlers = [1 \<mapsto> [\<lambda>ev w. (w @ [payload ev], None)],
                       2 \<mapsto> [\<lambda>ev w. (w @ [payload ev + 1], None)]],
           event_queue = [], async_mode = False, shutdown_requested = False\<rparr>,
        ([], []), None)"
proof -
  let ?bus = "\<lparr>handlers = [(1::nat) \<mapsto> [\<lambda>(ev :: (nat, nat) Event) (w :: nat list). (w @ [payload ev], None :: thrown option)],
                     2 \<mapsto> [\<lambda>ev w. (w @ [payload ev + 1], None)]],
         event_queue = [], async_mode = False, shutdown_requested = False\<rparr>"
  let ?ev = "\<lparr>timestamp = 0, type_id = 1::nat, payload = 10::nat\<rparr>"
  note u = unsubscribe_clears_only_that_type [of 1 ?bus 7 ?ev "([], [])"]
  have n: "(2::nat) \<noteq> 1" by simp
  have a: "\<not> async_mode ?bus" by simp
  have "handlers (unsubscribe 1 ?bus) 2 = handlers ?bus 2"
    using u n by blast
  moreover have "publish 7 1 ?ev (unsubscribe 1 ?bus) ([], []) = (unsubscribe 1 ?bus, ([], []), None)"
    using u a by blast
  moreover have "dispatch_polymorphic_event 7 ?ev (unsubscribe 1 ?bus) ([], []) = (([], []), None)"
    using u by simp
  ultimately show ?thesis by simp
qed

section \<open>EventBus: flush in asynchronous mode\<close>

text \<open>
  C7. The claim is that, once \<open>flush()\<close> has returned, the three events published before
  it have been dispatched in order. The code does not keep it: \<open>worker_loop\<close> pops an
  event and releases the mutex before it dispatches the event, and \<open>flush\<close> only waits
  for the queue to be empty. In the schedule \<open>early_flush\<close> the client publishes the
  events 1, 2, 3; the dispatcher handles 1 and 2 and pops 3; then \<open>flush\<close> takes the
  mutex, finds the queue empty and returns (the client is idle with nothing left to
  do), while the handler has seen 1 and 2 only and the dispatcher still holds event 3.
  One more step of the dispatcher delivers it.
\<close>

theorem flush_returns_before_last_dispatch:
  "bus_exec early_flush flush_start = Some
     \<lparr>event_bus = \<lparr>handlers = [1 \<mapsto> [recorder]], event_queue = [],
              async_mode = True, shutdown_requested = False\<rparr>,
      queue_mutex = None, worker_thread = Some (W_dispatch (test_event 3)), client = C_idle,
      todo = [],
      world = ([1, 2], [(dispatcher_tid, recorder), (dispatcher_tid, recorder)]),
      uncaught = None\<rparr>
   \<and> map_option (fst \<circ> world) (bus_exec (early_flush @ [Dispatcher]) flush_start)
     = Some [1, 2, 3]"
  by (simp add: early_flush_def flush_start_def client_step_def worker_step_def
      dispatch_polymorphic_event_def recorder_def test_event_def eval_nat_numeral)

section \<open>LockFreeMemoryPool: the freelist under interleaving\<close>

lemma ctor3: "LockFreeMemoryPool_ctor node_at 3 =
    \<lparr>head = 192, node_next = (\<lambda>n. 0)(64 := 0, 128 := 64, 192 := 128), created = 3\<rparr>"
  by (simp add: LockFreeMemoryPool_ctor_def node_at_def eval_nat_numeral)

text \<open>
  Without interleaving the pool behaves as the repository's test expects: two successive
  allocations are distinct, a deallocated node is the next one allocated, and an empty
  pool makes a new node for every allocation.
\<close>

lemma lock_free_pool_sequential_test:
  "map_option history
     (lf_exec node_at 8
        [Call_allocate 1, Step 1, Step 1, Call_allocate 1, Step 1, Step 1,
         Call_deallocate 1 200, Step 1, Step 1, Call_deallocate 1 136, Step 1, Step 1,
         Call_allocate 1, Step 1, Step 1]
        (lf_start node_at 3))
   = Some [Allocated 1 200, Allocated 1 136, Deallocated 1 200, Deallocated 1 136,
           Allocated 1 136]"
  by (simp add: lf_start_def ctor3 lf_step_def)

lemma lock_free_pool_grows_when_empty:
  "map_option history
     (lf_exec node_at 8 [Call_allocate 1, Step 1, Call_allocate 2, Step 2]
        (lf_start node_at 0))
   = Some [Allocated 1 72, Allocated 2 136]"
  by (simp add: lf_start_def LockFreeMemoryPool_ctor_def node_at_def lf_step_def)

text \<open>
  C8. The claim is that no two live allocations ever share an address. The code does not
  keep it: between the load of \<open>old_head->next\<close> and the exchange in \<open>allocate\<close>, other
  threads can pop \<open>old_head\<close> and its successor and push \<open>old_head\<close> back; the exchange
  then succeeds and installs the stale successor, which is live, as the head. In
  \<open>aba_schedule\<close> on a pool of three nodes (192, 128, 64), thread 1 reads head 192 and
  next 128; thread 2 allocates 200 (node 192) and 136 (node 128) and deallocates 200;
  thread 1 completes its exchange and gets 200, and its next \<open>allocate\<close> returns 136,
  which thread 2 still holds.
\<close>

theorem lock_free_pool_double_issue:
  "map_option history (lf_exec node_at 8 aba_schedule (lf_start node_at 3))
     = Some [Allocated 2 200, Allocated 2 136, Deallocated 2 200,
             Allocated 1 200, Allocated 1 136]
   \<and> live_allocations
         [Allocated 2 200, Allocated 2 136, Deallocated 2 200,
          Allocated 1 200, Allocated 1 136] {#}
     = {#136, 200, 136#}
   \<and> count
         (live_allocations
            [Allocated 2 200, Allocated 2 136, Deallocated 2 200,
             Allocated 1 200, Allocated 1 136] {#})
         136 = 2"
  by (simp add: lf_start_def ctor3 aba_schedule_def lf_step_def)

section \<open>Config: saving and loading\<close>

lemmas config_eval = save_to_file_def put_value_def load_from_file_def load_line_def
  trim_def parse_value_def stoi_def digits_value_def isspace_def isdigit_def is_blank_def
  newline_def get_bool_def get_string_def Let_def

text \<open>
  The file that the repository's test writes is loaded as the test expects, for a
  \<open>std::stod\<close> that rejects \<open>test_string\<close> and reads all of \<open>3.14\<close>.
\<close>

lemma Config_loads_test_file:
  assumes "stod ''test_string'' = None" and "stod ''3.14'' = Some (d, 4)"
  shows "load_from_file stod
     (''# Test configuration'' @ [newline]
      @ ''string_value=\"test_string\"'' @ [newline]
      @ ''int_value=42'' @ [newline]
      @ ''double_value=3.14'' @ [newline]
      @ ''bool_value=true'' @ [newline]) Map.empty
   = [''string_value'' \<mapsto> VString ''test_string'', ''int_value'' \<mapsto> VInt 42,
      ''double_value'' \<mapsto> VDouble d, ''bool_value'' \<mapsto> VBool True]"
  using assms by (simp add: config_eval)

text \<open>
  C4. The claim is that saving and loading gives back every value with its type. The
  code does not keep it for any \<open>bool\<close>: \<open>save_to_file\<close> writes \<open>true\<close> as \<open>1\<close>, which
  \<open>parse_value\<close> reads as the \<open>int\<close> 1 (it reads only \<open>true\<close>, \<open>TRUE\<close>, \<open>false\<close>,
  \<open>FALSE\<close> as a \<open>bool\<close>), so \<open>get<bool>\<close> falls back to its default. Neither for a
  string that reads as a number: the quotes that \<open>save_to_file\<close> writes are removed
  before \<open>parse_value\<close>, which makes the string \<open>42\<close> the \<open>int\<close> 42. An \<open>int\<close> comes back.
\<close>

theorem Config_roundtrip_changes_type:
  "save_to_file put_double [''flag''] [''flag'' \<mapsto> VBool True] = ''flag=1'' @ [newline]
   \<and> load_from_file stod (save_to_file put_double [''flag''] [''flag'' \<mapsto> VBool True])
         Map.empty
       = [''flag'' \<mapsto> VInt 1]
   \<and> get_bool ''flag'' False [''flag'' \<mapsto> VBool True] = True
   \<and> get_bool ''flag'' False
         (load_from_file stod (save_to_file put_double [''flag''] [''flag'' \<mapsto> VBool True])
            Map.empty) = False
   \<and> save_to_file put_double [''id''] [''id'' \<mapsto> VString ''42''] = ''id=\"42\"'' @ [newline]
   \<and> load_from_file stod (save_to_file put_double [''id''] [''id'' \<mapsto> VString ''42''])
         Map.empty
       = [''id'' \<mapsto> VInt 42]
   \<and> load_from_file stod (save_to_file put_double [''n''] [''n'' \<mapsto> VInt (- 17)])
         Map.empty
       = [''n'' \<mapsto> VInt (- 17)]"
  by (simp add: config_eval put_int_def put_nat.simps)

end
